theory Spec2Isabelle
  imports Main "HOL-Library.AList"
begin

section \<open>Strings\<close>

text \<open>
  Python strings are modelled as \<^typ>\<open>string\<close>: one \<^typ>\<open>char\<close> per character.
  The model is exact for titles, URLs and paths written in ASCII; a character beyond the
  8-bit range has no counterpart in \<^typ>\<open>char\<close>.
\<close>

text \<open>\<^verbatim>\<open>str.replace(old, new)\<close> for a non-empty \<open>old\<close>: every occurrence, left to right.\<close>

function replace_str :: "string \<Rightarrow> string \<Rightarrow> string \<Rightarrow> string" where
  "replace_str old new s =
     (if old \<noteq> [] \<and> take (length old) s = old
      then new @ replace_str old new (drop (length old) s)
      else (case s of [] \<Rightarrow> [] | c # cs \<Rightarrow> c # replace_str old new cs))"
  by pat_completeness auto
termination
proof (relation "measure (\<lambda>(old, new, s). length s)")
  fix old new s :: string
  assume "old \<noteq> [] \<and> take (length old) s = old"
  then have "s \<noteq> []" and "old \<noteq> []" by auto
  then show "((old, new, drop (length old) s), (old, new, s))
               \<in> measure (\<lambda>(old, new, s). length s)"
    by simp
qed auto

declare replace_str.simps [simp del]

text \<open>\<^verbatim>\<open>str.strip(chars)\<close>: drops the characters of \<open>chars\<close> from both ends.\<close>

definition strip_chars :: "string \<Rightarrow> string \<Rightarrow> string" where
  "strip_chars cs s =
     rev (dropWhile (\<lambda>c. c \<in> set cs) (rev (dropWhile (\<lambda>c. c \<in> set cs) s)))"

text \<open>\<^verbatim>\<open>str.startswith(p)\<close>.\<close>

definition startswith :: "string \<Rightarrow> string \<Rightarrow> bool" where
  "startswith s p = (take (length p) s = p)"

text \<open>\<^verbatim>\<open>str.split(sep)\<close> for a one-character separator.\<close>

fun split_on :: "char \<Rightarrow> string \<Rightarrow> string list" where
  "split_on sep [] = [[]]"
| "split_on sep (c # cs) =
     (if c = sep then [] # split_on sep cs
      else (case split_on sep cs of [] \<Rightarrow> [[c]] | w # ws \<Rightarrow> (c # w) # ws))"

text \<open>\<^verbatim>\<open>"/".join(parts)\<close>.\<close>

fun join_slash :: "string list \<Rightarrow> string" where
  "join_slash [] = []"
| "join_slash [a] = a"
| "join_slash (a # b # rest) = a @ ''/'' @ join_slash (b # rest)"

text \<open>\<^verbatim>\<open>str.lower()\<close> on the ASCII letters; other characters are left as they are.\<close>

definition lower_char :: "char \<Rightarrow> char" where
  "lower_char c =
     (case map_of (zip ''ABCDEFGHIJKLMNOPQRSTUVWXYZ'' ''abcdefghijklmnopqrstuvwxyz'') c of
        None \<Rightarrow> c
      | Some l \<Rightarrow> l)"

definition lower :: "string \<Rightarrow> string" where
  "lower s = map lower_char s"

text \<open>\<^verbatim>\<open>str.rfind(c)\<close>: the index of the last occurrence, \<open>-1\<close> when there is none.\<close>

definition rfind :: "char \<Rightarrow> string \<Rightarrow> int" where
  "rfind c s =
     (if c \<in> set s
      then int (length s) - 1 - int (length (takeWhile (\<lambda>x. x \<noteq> c) (rev s)))
      else - 1)"


section \<open>Filename sanitization\<close>

text \<open>The character class \<^verbatim>\<open>[<>:"/\\|?*]\<close> of the regular expression.\<close>

definition forbidden_chars :: "string" where
  "forbidden_chars =
     [CHR ''<'', CHR ''>'', CHR '':'', CHR 0x22, CHR ''/'', CHR 0x5C, CHR ''|'', CHR ''?'',
      CHR ''*'']"

text \<open>
  \<^verbatim>\<open>sanitize_filename\<close>: spaces become underscores, the forbidden characters are
  removed, spaces and dots are stripped from both ends, and the result is cut to 200
  characters, in this order.
\<close>

definition sanitize_filename :: "string \<Rightarrow> string" where
  "sanitize_filename text0 =
     (let text1 = replace_str '' '' ''_'' text0;
          text2 = filter (\<lambda>c. c \<notin> set forbidden_chars) text1;
          text3 = strip_chars '' .'' text2
      in take 200 text3)"


section \<open>Paths\<close>

text \<open>
  A \<^verbatim>\<open>pathlib.Path\<close> is the list of its components. Parsing a string drops empty
  components and \<open>.\<close> components, as pathlib does; every path is read from the root.
\<close>

type_synonym pure_path = "string list"

definition Path :: "string \<Rightarrow> pure_path" where
  "Path s = filter (\<lambda>part. part \<noteq> [] \<and> part \<noteq> ''.'') (split_on CHR ''/'' s)"

text \<open>\<^verbatim>\<open>Path.name\<close>: the final component, empty for the root.\<close>

definition path_name :: "pure_path \<Rightarrow> string" where
  "path_name p = (if p = [] then [] else last p)"

text \<open>
  \<^verbatim>\<open>Path.suffix\<close>: the name from its last dot on, when that dot is neither the first
  nor the last character of the name; empty otherwise.
\<close>

definition suffix :: "pure_path \<Rightarrow> string" where
  "suffix p =
     (let name = path_name p; i = rfind CHR ''.'' name
      in if 0 < i \<and> i < int (length name) - 1 then drop (nat i) name else [])"

text \<open>\<^verbatim>\<open>str(path)\<close> of an absolute path, and of a path relative to a directory.\<close>

definition str_abs :: "pure_path \<Rightarrow> string" where
  "str_abs p = CHR ''/'' # join_slash p"

definition str_rel :: "pure_path \<Rightarrow> string" where
  "str_rel p = (if p = [] then ''.'' else join_slash p)"


section \<open>Dates\<close>

text \<open>
  \<^verbatim>\<open>datetime\<close> and \<^verbatim>\<open>timedelta\<close> of the standard library, with the proleptic
  Gregorian ordinal arithmetic that \<^verbatim>\<open>datetime + timedelta\<close> performs. A result
  outside the years 1 to 9999 raises \<^verbatim>\<open>OverflowError\<close>, here \<open>None\<close>.
\<close>

record datetime =
  year :: int
  month :: int
  day :: int
  hour :: int
  minute :: int
  second :: int
  microsecond :: int

record timedelta =
  days :: int
  seconds :: int
  microseconds :: int

definition is_leap :: "int \<Rightarrow> bool" where
  "is_leap y = (y mod 4 = 0 \<and> (y mod 100 \<noteq> 0 \<or> y mod 400 = 0))"

definition days_before_year :: "int \<Rightarrow> int" where
  "days_before_year y = (let y1 = y - 1 in y1 * 365 + y1 div 4 - y1 div 100 + y1 div 400)"

definition DAYS_IN_MONTH :: "int list" where
  "DAYS_IN_MONTH = [- 1, 31, 28, 31, 30, 31, 30, 31, 31, 30, 31, 30, 31]"

definition DAYS_BEFORE_MONTH :: "int list" where
  "DAYS_BEFORE_MONTH = [- 1, 0, 31, 59, 90, 120, 151, 181, 212, 243, 273, 304, 334]"

definition days_before_month :: "int \<Rightarrow> int \<Rightarrow> int" where
  "days_before_month y m =
     DAYS_BEFORE_MONTH ! nat m + (if m > 2 \<and> is_leap y then 1 else 0)"

definition ymd2ord :: "int \<Rightarrow> int \<Rightarrow> int \<Rightarrow> int" where
  "ymd2ord y m d = days_before_year y + days_before_month y m + d"

definition ord2ymd :: "int \<Rightarrow> int \<times> int \<times> int" where
  "ord2ymd n0 =
     (let n = n0 - 1;
          n400 = n div 146097; n = n mod 146097;
          n100 = n div 36524; n = n mod 36524;
          n4 = n div 1461; n = n mod 1461;
          n1 = n div 365; n = n mod 365;
          y = n400 * 400 + 1 + n100 * 100 + n4 * 4 + n1
      in if n1 = 4 \<or> n100 = 4 then (y - 1, 12, 31)
         else
           let leapyear = (n1 = 3 \<and> (n4 \<noteq> 24 \<or> n100 = 3));
               m = (n + 50) div 32;
               preceding = DAYS_BEFORE_MONTH ! nat m + (if m > 2 \<and> leapyear then 1 else 0)
           in if preceding > n
              then
                let m' = m - 1;
                    preceding' =
                      preceding - (DAYS_IN_MONTH ! nat m' + (if m' = 2 \<and> leapyear then 1 else 0))
                in (y, m', n - preceding' + 1)
              else (y, m, n - preceding + 1))"

definition MAXORDINAL :: int where
  "MAXORDINAL = 3652059"

text \<open>\<^verbatim>\<open>timedelta(seconds=s)\<close> for a whole number of seconds.\<close>

definition timedelta_of_seconds :: "int \<Rightarrow> timedelta option" where
  "timedelta_of_seconds s =
     (let d = s div 86400
      in if \<bar>d\<bar> > 999999999 then None
         else Some \<lparr>days = d, seconds = s mod 86400, microseconds = 0\<rparr>)"

text \<open>\<^verbatim>\<open>datetime.__add__\<close>.\<close>

definition datetime_add :: "datetime \<Rightarrow> timedelta \<Rightarrow> datetime option" where
  "datetime_add dt td =
     (let us = microsecond dt + microseconds td;
          s = hour dt * 3600 + minute dt * 60 + second dt + seconds td + us div 1000000;
          d = ymd2ord (year dt) (month dt) (day dt) + days td + s div 86400;
          secs = s mod 86400
      in if 0 < d \<and> d \<le> MAXORDINAL
         then (case ord2ymd d of
                 (y, m, dd) \<Rightarrow>
                   Some \<lparr>year = y, month = m, day = dd, hour = secs div 3600,
                         minute = (secs mod 3600) div 60, second = secs mod 60,
                         microsecond = us mod 1000000\<rparr>)
         else None)"


section \<open>Data model\<close>

text \<open>\<^verbatim>\<open>PodcastEpisode\<close>; the constructor sets \<open>selected\<close> to \<open>False\<close>.\<close>

record podcast_episode =
  title :: string
  podcast :: string
  file_path :: string
  date_added :: datetime
  selected :: bool

definition PodcastEpisode :: "string \<Rightarrow> string \<Rightarrow> string \<Rightarrow> datetime \<Rightarrow> podcast_episode" where
  "PodcastEpisode t p f d =
     \<lparr>title = t, podcast = p, file_path = f, date_added = d, selected = False\<rparr>"

text \<open>
  \<^verbatim>\<open>PodcastEpisode.filename\<close>: the sanitized title followed by the suffix of the
  source path, \<open>.mp3\<close> when the source path has none.
\<close>

definition filename :: "podcast_episode \<Rightarrow> string" where
  "filename episode =
     (let original_path = Path (file_path episode);
          extension = suffix original_path;
          extension = (if extension = [] then ''.mp3'' else extension);
          sanitized_title = sanitize_filename (title episode)
      in sanitized_title @ extension)"

text \<open>\<^verbatim>\<open>DeviceFile\<close>; the constructor sets \<open>keep\<close> to \<open>False\<close> (default: remove).\<close>

record device_file =
  name :: string
  path :: string
  keep :: bool

definition DeviceFile :: "string \<Rightarrow> string \<Rightarrow> device_file" where
  "DeviceFile n p = \<lparr>name = n, path = p, keep = False\<rparr>"


section \<open>The file system\<close>

text \<open>
  The disk is a table from paths to nodes: a regular file with its content, or a directory
  with the size \<^verbatim>\<open>stat\<close> reports for it. A path resolves only when every directory
  above it is in the table as a directory; the root always resolves. The table gives what
  a look-up returns. A look-up that raises instead (before Python 3.14
  \<^verbatim>\<open>Path.exists()\<close> raises \<^verbatim>\<open>OSError\<close> for a name longer than the file
  system allows, 255 bytes) is not part of the model: every statement below about a path
  that exists or does not exist is about a look-up that returned.
\<close>

datatype node = File string | Dir nat

type_synonym file_table = "(pure_path \<times> node) list"

definition is_dir_node :: "node option \<Rightarrow> bool" where
  "is_dir_node e = (case e of Some (Dir _) \<Rightarrow> True | _ \<Rightarrow> False)"

definition dirs_above :: "file_table \<Rightarrow> pure_path \<Rightarrow> bool" where
  "dirs_above fs p = list_all (\<lambda>k. is_dir_node (map_of fs (take k p))) [1..<length p]"

definition stat :: "file_table \<Rightarrow> pure_path \<Rightarrow> node option" where
  "stat fs p =
     (if p = [] then Some (Dir 0) else if dirs_above fs p then map_of fs p else None)"

definition st_size :: "node \<Rightarrow> nat" where
  "st_size n = (case n of File content \<Rightarrow> length content | Dir sz \<Rightarrow> sz)"

text \<open>\<^verbatim>\<open>Path.exists()\<close>, \<^verbatim>\<open>Path.is_dir()\<close>, \<^verbatim>\<open>Path.is_file()\<close>.\<close>

definition path_exists :: "file_table \<Rightarrow> pure_path \<Rightarrow> bool" where
  "path_exists fs p = (stat fs p \<noteq> None)"

definition is_dir :: "file_table \<Rightarrow> pure_path \<Rightarrow> bool" where
  "is_dir fs p = is_dir_node (stat fs p)"

definition is_file :: "file_table \<Rightarrow> pure_path \<Rightarrow> bool" where
  "is_file fs p = (case stat fs p of Some (File _) \<Rightarrow> True | _ \<Rightarrow> False)"

text \<open>The test \<^verbatim>\<open>p.exists() and p.stat().st_size > 0\<close>.\<close>

definition exists_nonempty :: "file_table \<Rightarrow> pure_path \<Rightarrow> bool" where
  "exists_nonempty fs p = (case stat fs p of None \<Rightarrow> False | Some n \<Rightarrow> 0 < st_size n)"


section \<open>The environment\<close>

text \<open>The tables of the podcast library that the query reads.\<close>

record zmtepisode =
  e_ZTITLE :: "string option"
  e_ZPODCAST :: "int option"
  e_ZASSETURL :: "string option"
  e_ZDOWNLOADDATE :: "int option"
  e_ZLASTDATEPLAYED :: "int option"

record zmtpodcast =
  p_Z_PK :: int
  p_ZTITLE :: "string option"

record database =
  ZMTEPISODE :: "zmtepisode list"
  ZMTPODCAST :: "zmtpodcast list"

text \<open>
  What the program does not decide itself: whether \<open>ffmpeg\<close> is on the search path,
  which system calls fail, the name of a new temporary file, what a run of \<open>ffmpeg\<close>
  and a \<^verbatim>\<open>shutil.move\<close> leave on the disk (with the exit code, \<open>None\<close> when the
  process could not be started; and whether the move returned without raising), after
  how many entries the directory walk fails, the podcast library (\<open>None\<close> when no
  database file is found), whether reading it fails, the clock, and
  \<^verbatim>\<open>urllib.parse.unquote\<close>, the percent-decoding of the standard library, taken as
  it is.
\<close>

record env =
  which_ffmpeg :: bool
  mkdir_fails :: "pure_path \<Rightarrow> bool"
  new_dir_size :: nat
  unlink_fails :: "pure_path \<Rightarrow> bool"
  temp_file :: "file_table \<Rightarrow> string \<Rightarrow> pure_path option"
  run_ffmpeg :: "file_table \<Rightarrow> pure_path \<Rightarrow> pure_path \<Rightarrow> int option \<times> file_table"
  shutil_move :: "file_table \<Rightarrow> pure_path \<Rightarrow> pure_path \<Rightarrow> bool \<times> file_table"
  glob_fault :: "nat option"
  library :: "database option"
  sqlite_fails :: bool
  now :: datetime
  url_unquote :: "string \<Rightarrow> string"

text \<open>The state: the disk, and the \<open>ffmpeg\<close> runs so far (source and output path).\<close>

record world =
  disk :: file_table
  ffmpeg_calls :: "(pure_path \<times> pure_path) list"


section \<open>File operations\<close>

text \<open>
  \<^verbatim>\<open>Path.mkdir(parents=True, exist_ok=True)\<close>: nothing to do for a directory that is
  there, an error for a file in its place; otherwise the missing directories are made from
  the root down.
\<close>

fun make_dirs :: "env \<Rightarrow> file_table \<Rightarrow> pure_path \<Rightarrow> pure_path \<Rightarrow> file_table option" where
  "make_dirs env fs pre [] = Some fs"
| "make_dirs env fs pre (c # cs) =
     (let q = pre @ [c]
      in case map_of fs q of
           Some (Dir _) \<Rightarrow> make_dirs env fs q cs
         | Some (File _) \<Rightarrow> None
         | None \<Rightarrow>
             if mkdir_fails env q then None
             else make_dirs env (AList.update q (Dir (new_dir_size env)) fs) q cs)"

definition mkdir :: "env \<Rightarrow> file_table \<Rightarrow> pure_path \<Rightarrow> file_table option" where
  "mkdir env fs p =
     (case stat fs p of
        Some (Dir _) \<Rightarrow> Some fs
      | Some (File _) \<Rightarrow> None
      | None \<Rightarrow> make_dirs env fs [] p)"

text \<open>\<^verbatim>\<open>Path.unlink()\<close>: removes a regular file; \<open>None\<close> when it raises.\<close>

definition unlink :: "env \<Rightarrow> file_table \<Rightarrow> pure_path \<Rightarrow> file_table option" where
  "unlink env fs p =
     (case stat fs p of
        Some (File _) \<Rightarrow> if unlink_fails env p then None else Some (AList.delete p fs)
      | _ \<Rightarrow> None)"

text \<open>\<^verbatim>\<open>try: tmp_path.unlink(missing_ok=True) except Exception: pass\<close>.\<close>

definition unlink_quietly :: "env \<Rightarrow> file_table \<Rightarrow> pure_path \<Rightarrow> file_table" where
  "unlink_quietly env fs p = (case unlink env fs p of None \<Rightarrow> fs | Some fs' \<Rightarrow> fs')"

text \<open>
  \<^verbatim>\<open>tempfile.NamedTemporaryFile(suffix=..., delete=False)\<close>: a new empty file, closed
  at once.
\<close>

definition named_temporary_file ::
  "env \<Rightarrow> file_table \<Rightarrow> string \<Rightarrow> (pure_path \<times> file_table) option" where
  "named_temporary_file env fs sfx =
     (case temp_file env fs sfx of
        None \<Rightarrow> None
      | Some tmp_path \<Rightarrow> Some (tmp_path, AList.update tmp_path (File []) fs))"


section \<open>The device\<close>

definition device_path :: pure_path where
  "device_path = [''Volumes'', ''XTRAINERZ'']"

definition is_connected :: "world \<Rightarrow> bool" where
  "is_connected w = (path_exists (disk w) device_path \<and> is_dir (disk w) device_path)"

subsection \<open>Scanning the device\<close>

definition audio_extensions :: "string list" where
  "audio_extensions = [''.mp3'', ''.m4a'', ''.aac'', ''.wav'', ''.flac'']"

definition is_below :: "pure_path \<Rightarrow> pure_path \<Rightarrow> bool" where
  "is_below root p = (length root < length p \<and> take (length root) p = root)"

text \<open>
  \<^verbatim>\<open>root.glob("**/*")\<close>: every entry below the root, files and directories, hidden
  ones included, in the order of the table. The walk may fail after some entries.
\<close>

definition glob_all :: "file_table \<Rightarrow> pure_path \<Rightarrow> pure_path list" where
  "glob_all fs root = map fst (filter (\<lambda>(p, n). is_below root p \<and> path_exists fs p) fs)"

datatype glob_event = Yield pure_path | ReadError

definition glob_events :: "env \<Rightarrow> file_table \<Rightarrow> pure_path \<Rightarrow> glob_event list" where
  "glob_events env fs root =
     (case glob_fault env of
        None \<Rightarrow> map Yield (glob_all fs root)
      | Some k \<Rightarrow> map Yield (take k (glob_all fs root)) @ [ReadError])"

fun scan_loop :: "file_table \<Rightarrow> glob_event list \<Rightarrow> device_file list \<Rightarrow> device_file list" where
  "scan_loop fs [] device_files = device_files"
| "scan_loop fs (ReadError # rest) device_files = device_files"
| "scan_loop fs (Yield fp # rest) device_files =
     scan_loop fs rest
       (if is_file fs fp
           \<and> \<not> startswith (path_name fp) ''.''
           \<and> lower (suffix fp) \<in> set audio_extensions
        then device_files
               @ [DeviceFile (str_rel (drop (length device_path) fp)) (str_abs fp)]
        else device_files)"

definition get_device_files :: "env \<Rightarrow> world \<Rightarrow> device_file list" where
  "get_device_files env w =
     (if \<not> is_connected w then []
      else scan_loop (disk w) (glob_events env (disk w) device_path) [])"

subsection \<open>Copying an episode\<close>

text \<open>
  The branch in which \<^verbatim>\<open>copy_episode\<close> returns, named after the message it prints:
  \<open>Skipped\<close> (file already exists on device) and \<open>Processed\<close> (processed and copied)
  return \<open>True\<close>, every other branch returns \<open>False\<close>. \<open>UnhandledException\<close> is the
  outer \<^verbatim>\<open>except Exception\<close>.
\<close>

datatype copy_outcome =
    DeviceNotConnected
  | TranscoderUnavailable
  | Skipped
  | SourceFileMissing
  | RemoveFailed
  | TranscodeFailed
  | CopyFailed
  | Processed
  | VerificationFailed
  | UnhandledException

definition returned :: "copy_outcome \<Rightarrow> bool" where
  "returned r = (r = Skipped \<or> r = Processed)"

definition destination_of :: "podcast_episode \<Rightarrow> pure_path" where
  "destination_of episode = (device_path @ [''Podcasts'']) @ Path (filename episode)"

text \<open>
  The second half of \<^verbatim>\<open>copy_episode\<close>, from the temporary file on: the run of
  \<open>ffmpeg\<close> into a temporary file, the move to the destination and the verification.
  \<open>fs2\<close> is the disk once a stale destination has been removed.
\<close>

definition transcode_and_move ::
  "env \<Rightarrow> world \<Rightarrow> pure_path \<Rightarrow> pure_path \<Rightarrow> file_table \<Rightarrow> copy_outcome \<times> world" where
  "transcode_and_move env w source destination fs2 =
     (case named_temporary_file env fs2 (suffix destination) of
        None \<Rightarrow> (UnhandledException, w\<lparr>disk := fs2\<rparr>)
      | Some (tmp_path, fs3) \<Rightarrow>
          let calls = ffmpeg_calls w @ [(source, tmp_path)]
          in (case run_ffmpeg env fs3 source tmp_path of
                (None, fs4) \<Rightarrow> (UnhandledException, \<lparr>disk = fs4, ffmpeg_calls = calls\<rparr>)
              | (Some returncode, fs4) \<Rightarrow>
                  if returncode \<noteq> 0
                  then (TranscodeFailed,
                        \<lparr>disk = unlink_quietly env fs4 tmp_path, ffmpeg_calls = calls\<rparr>)
                  else
                    (case shutil_move env fs4 tmp_path destination of
                       (False, fs5) \<Rightarrow>
                         (CopyFailed,
                          \<lparr>disk = unlink_quietly env fs5 tmp_path, ffmpeg_calls = calls\<rparr>)
                     | (True, fs5) \<Rightarrow>
                         if exists_nonempty fs5 destination
                         then (Processed, \<lparr>disk = fs5, ffmpeg_calls = calls\<rparr>)
                         else (VerificationFailed, \<lparr>disk = fs5, ffmpeg_calls = calls\<rparr>))))"

text \<open>
  \<^verbatim>\<open>copy_episode\<close>: the device check, the \<open>Podcasts\<close> folder, the check for
  \<open>ffmpeg\<close>, the skip of an episode already on the device, the check of the source, the
  removal of a stale destination, and then the second half above.
\<close>

definition copy_episode :: "env \<Rightarrow> world \<Rightarrow> podcast_episode \<Rightarrow> copy_outcome \<times> world" where
  "copy_episode env w episode =
     (if \<not> is_connected w then (DeviceNotConnected, w)
      else
        let source = Path (file_path episode);
            destination_dir = device_path @ [''Podcasts'']
        in case mkdir env (disk w) destination_dir of
             None \<Rightarrow> (UnhandledException, w)
           | Some fs1 \<Rightarrow>
               let destination = destination_dir @ Path (filename episode);
                   w1 = w\<lparr>disk := fs1\<rparr>
               in if \<not> which_ffmpeg env then (TranscoderUnavailable, w1)
                  else if exists_nonempty fs1 destination then (Skipped, w1)
                  else if \<not> path_exists fs1 source then (SourceFileMissing, w1)
                  else
                    case (if path_exists fs1 destination then unlink env fs1 destination
                          else Some fs1) of
                      None \<Rightarrow> (RemoveFailed, w1)
                    | Some fs2 \<Rightarrow> transcode_and_move env w source destination fs2)"

subsection \<open>Deleting a file\<close>



section \<open>Applying the changes\<close>

text \<open>
  The two loops of \<^verbatim>\<open>apply_changes\<close>. Each returns its counter, what every call
  reported, in order, and the state it leaves.
\<close>

fun copy_selected ::
  "env \<Rightarrow> world \<Rightarrow> podcast_episode list \<Rightarrow> nat \<times> copy_outcome list \<times> world" where
  "copy_selected env w [] = (0, [], w)"
| "copy_selected env w (episode # rest) =
     (case copy_episode env w episode of
        (r, w1) \<Rightarrow>
          (case copy_selected env w1 rest of
             (copied_count, reports, w2) \<Rightarrow>
               ((if returned r then 1 else 0) + copied_count, r # reports, w2)))"




section \<open>Reading the podcast library\<close>

text \<open>A row of the query's result.\<close>

record result_row =
  episode_title :: "string option"
  podcast_title :: "string option"
  file_url :: "string option"
  download_date :: "int option"
  last_played :: "int option"

text \<open>
  The query: the join of episodes and podcasts, the rows with a non-null, non-empty asset
  URL and a non-null download date, newest first, at most \<open>limit\<close> rows. The download
  date is read at whole seconds. SQLite leaves the order of rows with equal dates open
  (here: the order of the table), and reads a negative limit as no limit.
\<close>

definition joined_rows :: "database \<Rightarrow> result_row list" where
  "joined_rows db =
     concat (map (\<lambda>e. map (\<lambda>p. \<lparr>episode_title = e_ZTITLE e, podcast_title = p_ZTITLE p,
                                 file_url = e_ZASSETURL e, download_date = e_ZDOWNLOADDATE e,
                                 last_played = e_ZLASTDATEPLAYED e\<rparr>)
                          (filter (\<lambda>p. e_ZPODCAST e = Some (p_Z_PK p)) (ZMTPODCAST db)))
                 (ZMTEPISODE db))"

definition where_clause :: "result_row \<Rightarrow> bool" where
  "where_clause r =
     (file_url r \<noteq> None \<and> file_url r \<noteq> Some [] \<and> download_date r \<noteq> None)"

definition date_key :: "result_row \<Rightarrow> int" where
  "date_key r = (case download_date r of None \<Rightarrow> 0 | Some t \<Rightarrow> t)"

definition order_by_date_desc :: "result_row list \<Rightarrow> result_row list" where
  "order_by_date_desc rows = sort_key (\<lambda>r. - date_key r) rows"

definition sql_limit :: "int \<Rightarrow> 'a list \<Rightarrow> 'a list" where
  "sql_limit limit rows = (if limit < 0 then rows else take (nat limit) rows)"

definition fetchall :: "database \<Rightarrow> int \<Rightarrow> result_row list" where
  "fetchall db limit = sql_limit limit (order_by_date_desc (filter where_clause (joined_rows db)))"

text \<open>
  The percent-decoding of a URL whose escapes are all below \<open>%80\<close>: a percent sign
  followed by two hexadecimal digits stands for the character with that code. On such URLs
  this is \<^verbatim>\<open>urllib.parse.unquote\<close>; it serves the examples only.
\<close>

definition hex_digit :: "char \<Rightarrow> nat option" where
  "hex_digit c =
     map_of (zip ''0123456789abcdefABCDEF''
               [0, 1, 2, 3, 4, 5, 6, 7, 8, 9, 10, 11, 12, 13, 14, 15, 10, 11, 12, 13, 14, 15]) c"

fun unquote_ascii :: "string \<Rightarrow> string" where
  "unquote_ascii (c # a # b # rest) =
     (case (c = CHR ''%'', hex_digit a, hex_digit b) of
        (True, Some h, Some l) \<Rightarrow> char_of (16 * h + l) # unquote_ascii rest
      | _ \<Rightarrow> c # unquote_ascii (a # b # rest))"
| "unquote_ascii s = s"

text \<open>Python's \<^verbatim>\<open>x or default\<close> on an optional string.\<close>

definition or_default :: "string option \<Rightarrow> string \<Rightarrow> string" where
  "or_default x d = (case x of None \<Rightarrow> d | Some v \<Rightarrow> if v = [] then d else v)"

text \<open>The path a row's URL names, when the URL is a \<open>file://\<close> URL.\<close>

definition local_path :: "env \<Rightarrow> result_row \<Rightarrow> string option" where
  "local_path env row =
     (case file_url row of
        None \<Rightarrow> None
      | Some url \<Rightarrow>
          if url \<noteq> [] \<and> startswith url ''file://''
          then Some (url_unquote env (replace_str ''file://'' [] url))
          else None)"

text \<open>
  The conversion of the download date: \<^verbatim>\<open>if download_date:\<close> is false for a null
  date and for the date \<open>0\<close>, and then the clock is read. \<open>None\<close> is an
  \<^verbatim>\<open>OverflowError\<close>.
\<close>

definition core_data_epoch :: datetime where
  "core_data_epoch =
     \<lparr>year = 2001, month = 1, day = 1, hour = 0, minute = 0, second = 0, microsecond = 0\<rparr>"

definition to_date_added :: "env \<Rightarrow> int option \<Rightarrow> datetime option" where
  "to_date_added env d =
     (case d of
        None \<Rightarrow> Some (now env)
      | Some t \<Rightarrow>
          if t \<noteq> 0
          then (case timedelta_of_seconds t of
                  None \<Rightarrow> None
                | Some td \<Rightarrow> datetime_add core_data_epoch td)
          else Some (now env))"

text \<open>The loop over the rows; \<open>None\<close> when an exception leaves it.\<close>

fun collect_episodes ::
  "env \<Rightarrow> file_table \<Rightarrow> result_row list \<Rightarrow> podcast_episode list \<Rightarrow> podcast_episode list option"
  where
  "collect_episodes env fs [] episodes = Some episodes"
| "collect_episodes env fs (row # rows) episodes =
     (case local_path env row of
        None \<Rightarrow> collect_episodes env fs rows episodes
      | Some fp \<Rightarrow>
          if path_exists fs (Path fp)
          then (case to_date_added env (download_date row) of
                  None \<Rightarrow> None
                | Some d \<Rightarrow>
                    collect_episodes env fs rows
                      (episodes
                         @ [PodcastEpisode (or_default (episode_title row) ''Unknown Episode'')
                              (or_default (podcast_title row) ''Unknown Podcast'') fp d]))
          else collect_episodes env fs rows episodes)"

text \<open>
  \<^verbatim>\<open>get_recent_podcasts\<close>. Every exception ends in the empty list: a database
  that cannot be read, a limit that does not fit SQLite's signed 64-bit integer (binding it
  raises \<^verbatim>\<open>OverflowError\<close>), and an exception in the loop.
\<close>

definition get_recent_podcasts :: "env \<Rightarrow> world \<Rightarrow> int \<Rightarrow> podcast_episode list" where
  "get_recent_podcasts env w limit =
     (case library env of
        None \<Rightarrow> []
      | Some db \<Rightarrow>
          if sqlite_fails env then []
          else if limit < - 9223372036854775808 \<or> 9223372036854775807 < limit then []
          else (case collect_episodes env (disk w) (fetchall db limit) [] of
                  None \<Rightarrow> []
                | Some episodes \<Rightarrow> episodes))"


section \<open>Notions used in the statements\<close>

text \<open>The test of the scan on one entry, and the record the scan makes of an entry.\<close>

definition audio_file :: "file_table \<Rightarrow> pure_path \<Rightarrow> bool" where
  "audio_file fs p =
     (is_file fs p \<and> \<not> startswith (path_name p) ''.''
      \<and> lower (suffix p) \<in> set audio_extensions)"

definition device_file_of :: "pure_path \<Rightarrow> device_file" where
  "device_file_of p = DeviceFile (str_rel (drop (length device_path) p)) (str_abs p)"

text \<open>A row whose URL names a local file that exists, and the episode made of a row.\<close>

definition on_disk :: "env \<Rightarrow> file_table \<Rightarrow> result_row \<Rightarrow> bool" where
  "on_disk env fs row =
     (case local_path env row of None \<Rightarrow> False | Some fp \<Rightarrow> path_exists fs (Path fp))"

definition episode_of_row :: "env \<Rightarrow> result_row \<Rightarrow> podcast_episode option" where
  "episode_of_row env row =
     (case local_path env row of
        None \<Rightarrow> None
      | Some fp \<Rightarrow>
          map_option
            (PodcastEpisode (or_default (episode_title row) ''Unknown Episode'')
               (or_default (podcast_title row) ''Unknown Podcast'') fp)
            (to_date_added env (download_date row)))"

text \<open>
  What C3 states: of all the rows the query would return without a limit, newest first,
  those whose file exists, and of these the first \<open>limit\<close>.
\<close>

definition claimed_recent_rows ::
  "env \<Rightarrow> database \<Rightarrow> file_table \<Rightarrow> int \<Rightarrow> result_row list" where
  "claimed_recent_rows env db fs limit =
     sql_limit limit
       (filter (on_disk env fs) (order_by_date_desc (filter where_clause (joined_rows db))))"



section \<open>Example scenario\<close>

text \<open>
  A working environment, used to run the model on concrete inputs: \<open>ffmpeg\<close> is
  installed and writes an output for every source it can read, a move carries the file over,
  no system call fails, and URLs are decoded by \<open>unquote_ascii\<close>.
\<close>

definition example_env :: env where
  "example_env =
     \<lparr>which_ffmpeg = True,
      mkdir_fails = (\<lambda>p. False),
      new_dir_size = 64,
      unlink_fails = (\<lambda>p. False),
      temp_file = (\<lambda>fs sfx. Some [''tmp'', ''tmpfile'' @ sfx]),
      run_ffmpeg = (\<lambda>fs src out.
         case map_of fs src of
           Some (File content) \<Rightarrow> (Some 0, AList.update out (File (''2x '' @ content)) fs)
         | _ \<Rightarrow> (Some 1, fs)),
      shutil_move = (\<lambda>fs src dst.
         case map_of fs src of
           Some n \<Rightarrow> (True, AList.update dst n (AList.delete src fs))
         | None \<Rightarrow> (False, fs)),
      glob_fault = None,
      library = None,
      sqlite_fails = False,
      now = \<lparr>year = 2026, month = 11, day = 4, hour = 12, minute = 0, second = 0,
             microsecond = 0\<rparr>,
      url_unquote = unquote_ascii\<rparr>"

definition example_episode :: "string \<Rightarrow> string \<Rightarrow> podcast_episode" where
  "example_episode t f = PodcastEpisode t ''Show'' f core_data_epoch"


text \<open>
  Two disks: one on which the episode \<open>One\<close> is already on the device, and one with an
  empty device. Both hold the downloaded files of the episodes \<open>One\<close> and \<open>Three\<close>
  and the directory for temporary files.
\<close>

definition example_disk :: file_table where
  "example_disk =
     [([''Volumes''], Dir 96),
      ([''Volumes'', ''XTRAINERZ''], Dir 96),
      ([''Volumes'', ''XTRAINERZ'', ''Podcasts''], Dir 96),
      ([''Volumes'', ''XTRAINERZ'', ''Podcasts'', ''One.mp3''], File ''2x first''),
      ([''Users''], Dir 96),
      ([''Users'', ''me''], Dir 96),
      ([''Users'', ''me'', ''one.mp3''], File ''first''),
      ([''Users'', ''me'', ''three.mp3''], File ''third''),
      ([''tmp''], Dir 96)]"

definition example_world :: world where
  "example_world = \<lparr>disk = example_disk, ffmpeg_calls = []\<rparr>"



text \<open>An environment in which a move returns without leaving a file at the destination.\<close>

definition lossy_env :: env where
  "lossy_env = example_env\<lparr>shutil_move := (\<lambda>fs src dst. (True, AList.delete src fs))\<rparr>"

text \<open>
  A device with five audio files, two of them marked to keep, and a podcast library of
  three downloaded episodes, of which the newest has lost its file.
\<close>

definition five_disk :: file_table where
  "five_disk =
     [([''Volumes''], Dir 96),
      ([''Volumes'', ''XTRAINERZ''], Dir 96),
      ([''Volumes'', ''XTRAINERZ'', ''a.mp3''], File ''a''),
      ([''Volumes'', ''XTRAINERZ'', ''b.mp3''], File ''b''),
      ([''Volumes'', ''XTRAINERZ'', ''Podcasts''], Dir 96),
      ([''Volumes'', ''XTRAINERZ'', ''Podcasts'', ''c.m4a''], File ''c''),
      ([''Volumes'', ''XTRAINERZ'', ''Podcasts'', ''d.MP3''], File ''d''),
      ([''Volumes'', ''XTRAINERZ'', ''Podcasts'', ''e.wav''], File ''e'')]"

definition five_world :: world where
  "five_world = \<lparr>disk = five_disk, ffmpeg_calls = []\<rparr>"



definition example_db :: database where
  "example_db =
     \<lparr>ZMTEPISODE =
        [\<lparr>e_ZTITLE = Some ''Zero'', e_ZPODCAST = Some 1,
          e_ZASSETURL = Some ''file:///Users/me/one.mp3'', e_ZDOWNLOADDATE = Some 0,
          e_ZLASTDATEPLAYED = None\<rparr>,
         \<lparr>e_ZTITLE = Some ''Newest'', e_ZPODCAST = Some 1,
          e_ZASSETURL = Some ''file:///Users/me/gone.mp3'', e_ZDOWNLOADDATE = Some 172800,
          e_ZLASTDATEPLAYED = None\<rparr>,
         \<lparr>e_ZTITLE = Some ''Day'', e_ZPODCAST = Some 1,
          e_ZASSETURL = Some ''file:///Users/me/three.mp3'', e_ZDOWNLOADDATE = Some 86400,
          e_ZLASTDATEPLAYED = None\<rparr>],
      ZMTPODCAST = [\<lparr>p_Z_PK = 1, p_ZTITLE = Some ''Show''\<rparr>]\<rparr>"

definition library_env :: env where
  "library_env = example_env\<lparr>library := Some example_db\<rparr>"

text \<open>A library in which the download date of one episode is beyond the year 9999.\<close>

definition overflow_db :: database where
  "overflow_db =
     \<lparr>ZMTEPISODE =
        [\<lparr>e_ZTITLE = Some ''Near'', e_ZPODCAST = Some 1,
          e_ZASSETURL = Some ''file:///Users/me/one.mp3'', e_ZDOWNLOADDATE = Some 86400,
          e_ZLASTDATEPLAYED = None\<rparr>,
         \<lparr>e_ZTITLE = Some ''Far'', e_ZPODCAST = Some 1,
          e_ZASSETURL = Some ''file:///Users/me/three.mp3'',
          e_ZDOWNLOADDATE = Some 1000000000000, e_ZLASTDATEPLAYED = None\<rparr>],
      ZMTPODCAST = [\<lparr>p_Z_PK = 1, p_ZTITLE = Some ''Show''\<rparr>]\<rparr>"

definition overflow_env :: env where
  "overflow_env = example_env\<lparr>library := Some overflow_db\<rparr>"


section \<open>Properties of sanitization and filenames\<close>

lemma replace_str_single:
  "replace_str [a] [b] s = map (\<lambda>c. if c = a then b else c) s"
proof (induction s)
  case Nil
  show ?case by (subst replace_str.simps) simp
next
  case (Cons x xs)
  then show ?case by (subst replace_str.simps) simp
qed

lemma set_strip_chars: "set (strip_chars cs s) \<subseteq> set s"
proof -
  have "set (dropWhile (\<lambda>c. c \<in> set cs) (rev (dropWhile (\<lambda>c. c \<in> set cs) s)))
          \<subseteq> set (rev (dropWhile (\<lambda>c. c \<in> set cs) s))"
    by (meson set_dropWhileD subsetI)
  also have "\<dots> \<subseteq> set s"
    using set_dropWhileD by fastforce
  finally show ?thesis by (simp add: strip_chars_def)
qed

lemma set_sanitize_filename:
  "set (sanitize_filename t) \<subseteq> {c \<in> set (replace_str '' '' ''_'' t). c \<notin> set forbidden_chars}"
proof -
  let ?t2 = "filter (\<lambda>c. c \<notin> set forbidden_chars) (replace_str '' '' ''_'' t)"
  have "set (take 200 (strip_chars '' .'' ?t2)) \<subseteq> set (strip_chars '' .'' ?t2)"
    by (rule set_take_subset)
  also have "\<dots> \<subseteq> set ?t2" by (rule set_strip_chars)
  finally show ?thesis by (simp add: sanitize_filename_def Let_def)
qed


lemma sanitize_filename_length: "length (sanitize_filename t) \<le> 200"
  by (simp add: sanitize_filename_def Let_def)

lemma sanitize_filename_no_space: "CHR '' '' \<notin> set (sanitize_filename t)"
  using set_sanitize_filename [of t] by (auto simp: replace_str_single)

lemma hd_strip_chars:
  assumes "strip_chars cs s \<noteq> []"
  shows "hd (strip_chars cs s) \<notin> set cs"
proof -
  let ?P = "\<lambda>c. c \<in> set cs"
  let ?ys = "dropWhile ?P s"
  have split: "rev ?ys = takeWhile ?P (rev ?ys) @ dropWhile ?P (rev ?ys)" by simp
  have ys: "?ys = strip_chars cs s @ rev (takeWhile ?P (rev ?ys))"
    unfolding strip_chars_def
    by (metis rev_append rev_rev_ident split)
  from assms have "?ys \<noteq> []" using ys by (metis Nil_is_append_conv)
  then have "\<not> ?P (hd ?ys)" by (rule hd_dropWhile)
  moreover have "hd ?ys = hd (strip_chars cs s)"
    using assms ys by (metis hd_append2)
  ultimately show ?thesis by simp
qed

lemma sanitize_filename_leading:
  assumes "sanitize_filename t \<noteq> []"
  shows "hd (sanitize_filename t) \<noteq> CHR ''.'' \<and> hd (sanitize_filename t) \<noteq> CHR '' ''"
proof -
  let ?t3 = "strip_chars '' .'' (filter (\<lambda>c. c \<notin> set forbidden_chars) (replace_str '' '' ''_'' t))"
  have eq: "sanitize_filename t = take 200 ?t3" by (simp add: sanitize_filename_def Let_def)
  with assms have ne: "?t3 \<noteq> []" by auto
  then have "hd ?t3 \<notin> set '' .''" by (rule hd_strip_chars)
  moreover have "hd (take 200 ?t3) = hd ?t3" using ne by (cases ?t3) auto
  ultimately show ?thesis using eq by auto
qed

lemma strip_chars_all:
  assumes "set s \<subseteq> set cs"
  shows "strip_chars cs s = []"
proof -
  have "\<forall>x\<in>set s. x \<in> set cs" using assms by auto
  then have d: "dropWhile (\<lambda>c. c \<in> set cs) s = []" by (simp only: dropWhile_eq_Nil_conv)
  show ?thesis unfolding strip_chars_def d by simp
qed

lemma sanitize_filename_degenerate:
  assumes "set t \<subseteq> set forbidden_chars \<union> {CHR ''.''}"
  shows "sanitize_filename t = []"
proof -
  have "CHR '' '' \<notin> set t" using assms by (auto simp: forbidden_chars_def)
  then have r: "replace_str '' '' ''_'' t = t"
    by (auto simp: replace_str_single intro!: map_idI)
  have "set (filter (\<lambda>c. c \<notin> set forbidden_chars) t) \<subseteq> set '' .''"
    using assms by auto
  then have "strip_chars '' .'' (filter (\<lambda>c. c \<notin> set forbidden_chars) t) = []"
    by (rule strip_chars_all)
  then show ?thesis by (simp add: sanitize_filename_def Let_def r)
qed

lemma rfind_nth:
  assumes "c \<in> set s"
  shows "0 \<le> rfind c s" and "rfind c s < int (length s)" and "s ! nat (rfind c s) = c"
proof -
  let ?k = "length (takeWhile (\<lambda>x. x \<noteq> c) (rev s))"
  from assms have "c \<in> set (rev s)" by simp
  then have "dropWhile (\<lambda>x. x \<noteq> c) (rev s) \<noteq> []"
    by (simp only: dropWhile_eq_Nil_conv) blast
  moreover have "length (rev s)
      = ?k + length (dropWhile (\<lambda>x. x \<noteq> c) (rev s))"
    by (metis length_append takeWhile_dropWhile_id)
  ultimately have k: "?k < length (rev s)" by simp
  then have "\<not> (rev s ! ?k \<noteq> c)" by (rule nth_length_takeWhile)
  then have "rev s ! ?k = c" by simp
  moreover have "rev s ! ?k = s ! (length s - Suc ?k)" using k by (simp add: rev_nth)
  ultimately have nth: "s ! (length s - Suc ?k) = c" by simp
  have r: "rfind c s = int (length s) - 1 - int ?k" using assms by (simp add: rfind_def)
  from k have "nat (rfind c s) = length s - Suc ?k" unfolding r by simp
  with nth show "s ! nat (rfind c s) = c" by simp
  from k show "0 \<le> rfind c s" unfolding r by simp
  show "rfind c s < int (length s)" unfolding r by simp
qed

lemma suffix_cases:
  "suffix p = [] \<or>
     (hd (suffix p) = CHR ''.'' \<and> 2 \<le> length (suffix p) \<and> set (suffix p) \<subseteq> set (path_name p))"
proof (cases "0 < rfind CHR ''.'' (path_name p) \<and> rfind CHR ''.'' (path_name p) < int (length (path_name p)) - 1")
  case False
  then show ?thesis by (auto simp: suffix_def Let_def)
next
  case True
  let ?n = "path_name p"
  let ?i = "rfind CHR ''.'' ?n"
  have s: "suffix p = drop (nat ?i) ?n" using True by (simp add: suffix_def Let_def)
  have mem: "CHR ''.'' \<in> set ?n" using True by (auto simp: rfind_def split: if_splits)
  have lt: "nat ?i < length ?n" using True by auto
  have "hd (drop (nat ?i) ?n) = ?n ! nat ?i" using lt by (simp add: hd_drop_conv_nth)
  then have "hd (suffix p) = CHR ''.''" using rfind_nth(3) [OF mem] s by simp
  moreover have "2 \<le> length (suffix p)" using True s by auto
  moreover have "set (suffix p) \<subseteq> set ?n" unfolding s by (rule set_drop_subset)
  ultimately show ?thesis by blast
qed


lemma split_on_nonempty: "split_on sep s \<noteq> []"
  by (induction s) (auto split: list.splits)

lemma split_on_parts: "part \<in> set (split_on sep s) \<Longrightarrow> sep \<notin> set part"
proof (induction s arbitrary: part)
  case Nil
  then show ?case by simp
next
  case (Cons c cs)
  show ?case
  proof (cases "c = sep")
    case True
    with Cons show ?thesis by auto
  next
    case False
    obtain w ws where ws: "split_on sep cs = w # ws"
      using split_on_nonempty [of sep cs] by (cases "split_on sep cs") auto
    with Cons.prems False have "part = c # w \<or> part \<in> set ws" by simp
    then show ?thesis
    proof
      assume "part = c # w"
      moreover have "sep \<notin> set w" using Cons.IH [of w] ws by simp
      ultimately show ?thesis using False by auto
    next
      assume "part \<in> set ws"
      then show ?thesis using Cons.IH [of part] ws by simp
    qed
  qed
qed

lemma path_name_Path_no_slash: "CHR ''/'' \<notin> set (path_name (Path s))"
proof (cases "Path s = []")
  case True
  then show ?thesis by (simp add: path_name_def)
next
  case False
  then have "last (Path s) \<in> set (Path s)" by simp
  then have "last (Path s) \<in> set (split_on CHR ''/'' s)" by (simp add: Path_def)
  then show ?thesis using False by (simp add: path_name_def split_on_parts)
qed

lemma filename_extension:
  "\<exists>ext. filename e = sanitize_filename (title e) @ ext \<and> hd ext = CHR ''.'' \<and> 2 \<le> length ext
     \<and> CHR ''/'' \<notin> set ext
     \<and> ext = (if suffix (Path (file_path e)) = [] then ''.mp3'' else suffix (Path (file_path e)))"
proof (cases "suffix (Path (file_path e)) = []")
  case True
  then show ?thesis by (simp add: filename_def Let_def)
next
  case False
  with suffix_cases [of "Path (file_path e)"] path_name_Path_no_slash [of "file_path e"]
  show ?thesis by (auto simp: filename_def Let_def)
qed


text \<open>
  C2. A sanitized title contains none of the forbidden characters, no space, at most 200
  characters and no leading dot (the four lemmas above). It can still end with a dot: the
  dots are stripped before the title is cut to 200 characters, so a title whose 200th
  character is a dot inside the text keeps it as its last character. For the title of 199
  letters \<open>a\<close> followed by \<open>.b\<close> the result is the 199 letters and the dot.
\<close>

theorem sanitize_filename_trailing_dot:
  "sanitize_filename (replicate 199 CHR ''a'' @ ''.b'') = replicate 199 CHR ''a'' @ ''.''
   \<and> last (sanitize_filename (replicate 199 CHR ''a'' @ ''.b'')) = CHR ''.''"
  by code_simp

text \<open>
  C10, as stated, fails for a title of spaces: a space is not removed but replaced by an
  underscore, which nothing strips. The title of one space gives the filename \<open>_.mp3\<close>.
\<close>

theorem filename_space_title_counterexample:
  "set '' '' \<subseteq> set forbidden_chars \<union> {CHR '' '', CHR ''.''}
   \<and> filename (example_episode '' '' ''/Users/me/episode'') = ''_.mp3''
   \<and> filename (example_episode '' '' ''/Users/me/episode'') \<noteq> ''.mp3''
   \<and> hd (filename (example_episode '' '' ''/Users/me/episode'')) \<noteq> CHR ''.''"
  by code_simp

text \<open>
  C10, amended. For every episode whose title consists only of forbidden characters and
  dots, the filename is just the extension: the suffix of the source path, \<open>.mp3\<close> when
  the path has none. It is not empty and begins with a dot.
\<close>

theorem filename_degenerate_title:
  assumes "set (title e) \<subseteq> set forbidden_chars \<union> {CHR ''.''}"
  shows "filename e
           = (if suffix (Path (file_path e)) = [] then ''.mp3'' else suffix (Path (file_path e)))
         \<and> filename e \<noteq> []
         \<and> hd (filename e) = CHR ''.''"
proof -
  obtain ext where f: "filename e = sanitize_filename (title e) @ ext"
    and hd: "hd ext = CHR ''.''" and len: "2 \<le> length ext"
    and ext: "ext = (if suffix (Path (file_path e)) = [] then ''.mp3''
                     else suffix (Path (file_path e)))"
    using filename_extension [of e] by blast
  have "sanitize_filename (title e) = []"
    using assms by (rule sanitize_filename_degenerate)
  with f have "filename e = ext" by simp
  moreover have "ext \<noteq> []" using len by auto
  ultimately show ?thesis using hd ext by simp
qed

theorem filename_degenerate_title_witness:
  "set ''???'' \<subseteq> set forbidden_chars \<union> {CHR ''.''}
   \<and> filename (example_episode ''???'' ''/Users/me/episode.m4a'') = ''.m4a''
   \<and> filename (example_episode ''?.?'' ''/Users/me/episode'') = ''.mp3''"
proof -
  have a: "set (title (example_episode ''???'' ''/Users/me/episode.m4a''))
             \<subseteq> set forbidden_chars \<union> {CHR ''.''}"
    by (simp add: example_episode_def PodcastEpisode_def forbidden_chars_def)
  have b: "set (title (example_episode ''?.?'' ''/Users/me/episode''))
             \<subseteq> set forbidden_chars \<union> {CHR ''.''}"
    by (simp add: example_episode_def PodcastEpisode_def forbidden_chars_def)
  have s1: "suffix (Path (file_path (example_episode ''???'' ''/Users/me/episode.m4a''))) = ''.m4a''"
    by code_simp
  have s2: "suffix (Path (file_path (example_episode ''?.?'' ''/Users/me/episode''))) = []"
    by code_simp
  have "set ''???'' \<subseteq> set forbidden_chars \<union> {CHR ''.''}"
    by (simp add: forbidden_chars_def)
  then show ?thesis
    using filename_degenerate_title [OF a] filename_degenerate_title [OF b] s1 s2 by simp
qed


section \<open>Properties of copying an episode\<close>










lemma transcode_and_move_returned:
  assumes "returned (fst (transcode_and_move env w src dst fs2))"
  shows "exists_nonempty (disk (snd (transcode_and_move env w src dst fs2))) dst"
  using assms unfolding transcode_and_move_def Let_def returned_def
  by (auto split: option.splits prod.splits bool.splits if_splits)

lemma copy_episode_returned:
  assumes "returned (fst (copy_episode env w e))"
  shows "which_ffmpeg env"
    and "exists_nonempty (disk (snd (copy_episode env w e))) (destination_of e)"
proof -
  show "which_ffmpeg env"
    using assms unfolding copy_episode_def Let_def returned_def
    by (auto split: if_splits option.splits)
  show "exists_nonempty (disk (snd (copy_episode env w e))) (destination_of e)"
    using assms transcode_and_move_returned [of env w "Path (file_path e)" "destination_of e"]
    unfolding copy_episode_def Let_def destination_of_def
    by (auto simp: returned_def split: if_splits option.splits)
qed









lemma copy_episode_reaches_transcode:
  assumes "is_connected w"
    and "mkdir env (disk w) (device_path @ [''Podcasts'']) = Some fs1"
    and "which_ffmpeg env"
    and "\<not> exists_nonempty fs1 (destination_of e)"
    and "path_exists fs1 (Path (file_path e))"
    and "(if path_exists fs1 (destination_of e) then unlink env fs1 (destination_of e)
          else Some fs1) = Some fs2"
  shows "copy_episode env w e
           = transcode_and_move env w (Path (file_path e)) (destination_of e) fs2"
  using assms unfolding copy_episode_def Let_def destination_of_def by simp

lemma transcode_and_move_verification:
  assumes "named_temporary_file env fs2 (suffix dst) = Some (tmp_path, fs3)"
    and "run_ffmpeg env fs3 src tmp_path = (Some 0, fs4)"
    and "shutil_move env fs4 tmp_path dst = (True, fs5)"
    and "\<not> exists_nonempty fs5 dst"
  shows "transcode_and_move env w src dst fs2
           = (VerificationFailed, \<lparr>disk = fs5, ffmpeg_calls = ffmpeg_calls w @ [(src, tmp_path)]\<rparr>)"
  using assms unfolding transcode_and_move_def Let_def by simp

text \<open>
  C7. An episode gets to the run of \<open>ffmpeg\<close> when the device is connected, the
  \<open>Podcasts\<close> folder is there or can be made, \<open>ffmpeg\<close> is on the search path, the
  destination is not already on the device with non-zero size, the source exists, a stale
  destination is removed and the temporary file is made. If then \<open>ffmpeg\<close> exits with
  code 0 and the move returns, but the destination does not exist or has size zero after
  the move, \<^verbatim>\<open>copy_episode\<close> reports the verification failure and returns
  \<open>False\<close>. And no call at all returns success when it leaves the destination absent
  or empty.
\<close>

theorem verification_failure:
  "(is_connected w
      \<and> mkdir env (disk w) (device_path @ [''Podcasts'']) = Some fs1
      \<and> which_ffmpeg env
      \<and> \<not> exists_nonempty fs1 (destination_of e)
      \<and> path_exists fs1 (Path (file_path e))
      \<and> (if path_exists fs1 (destination_of e) then unlink env fs1 (destination_of e)
          else Some fs1) = Some fs2
      \<and> named_temporary_file env fs2 (suffix (destination_of e)) = Some (tmp_path, fs3)
      \<and> run_ffmpeg env fs3 (Path (file_path e)) tmp_path = (Some 0, fs4)
      \<and> shutil_move env fs4 tmp_path (destination_of e) = (True, fs5)
      \<and> \<not> exists_nonempty fs5 (destination_of e)
    \<longrightarrow> fst (copy_episode env w e) = VerificationFailed
        \<and> \<not> returned (fst (copy_episode env w e))
        \<and> disk (snd (copy_episode env w e)) = fs5)
   \<and> (\<not> exists_nonempty (disk (snd (copy_episode env w e))) (destination_of e)
        \<longrightarrow> \<not> returned (fst (copy_episode env w e)))"
proof (intro conjI impI)
  assume a: "is_connected w
      \<and> mkdir env (disk w) (device_path @ [''Podcasts'']) = Some fs1
      \<and> which_ffmpeg env
      \<and> \<not> exists_nonempty fs1 (destination_of e)
      \<and> path_exists fs1 (Path (file_path e))
      \<and> (if path_exists fs1 (destination_of e) then unlink env fs1 (destination_of e)
          else Some fs1) = Some fs2
      \<and> named_temporary_file env fs2 (suffix (destination_of e)) = Some (tmp_path, fs3)
      \<and> run_ffmpeg env fs3 (Path (file_path e)) tmp_path = (Some 0, fs4)
      \<and> shutil_move env fs4 tmp_path (destination_of e) = (True, fs5)
      \<and> \<not> exists_nonempty fs5 (destination_of e)"
  then have h1: "is_connected w"
    and h2: "mkdir env (disk w) (device_path @ [''Podcasts'']) = Some fs1"
    and h3: "which_ffmpeg env"
    and h4: "\<not> exists_nonempty fs1 (destination_of e)"
    and h5: "path_exists fs1 (Path (file_path e))"
    and h6: "(if path_exists fs1 (destination_of e) then unlink env fs1 (destination_of e)
              else Some fs1) = Some fs2"
    and h7: "named_temporary_file env fs2 (suffix (destination_of e)) = Some (tmp_path, fs3)"
    and h8: "run_ffmpeg env fs3 (Path (file_path e)) tmp_path = (Some 0, fs4)"
    and h9: "shutil_move env fs4 tmp_path (destination_of e) = (True, fs5)"
    and h10: "\<not> exists_nonempty fs5 (destination_of e)"
    by blast+
  have "copy_episode env w e
          = transcode_and_move env w (Path (file_path e)) (destination_of e) fs2"
    using h1 h2 h3 h4 h5 h6 by (rule copy_episode_reaches_transcode)
  also have "\<dots> = (VerificationFailed,
      \<lparr>disk = fs5, ffmpeg_calls = ffmpeg_calls w @ [(Path (file_path e), tmp_path)]\<rparr>)"
    using h7 h8 h9 h10 by (rule transcode_and_move_verification)
  finally have c: "copy_episode env w e = (VerificationFailed,
      \<lparr>disk = fs5, ffmpeg_calls = ffmpeg_calls w @ [(Path (file_path e), tmp_path)]\<rparr>)" .
  from c show "fst (copy_episode env w e) = VerificationFailed" by simp
  from c show "\<not> returned (fst (copy_episode env w e))" by (simp add: returned_def)
  from c show "disk (snd (copy_episode env w e)) = fs5" by simp
next
  assume "\<not> exists_nonempty (disk (snd (copy_episode env w e))) (destination_of e)"
  then show "\<not> returned (fst (copy_episode env w e))"
    using copy_episode_returned(2) by blast
qed

theorem verification_failure_witness:
  "fst (copy_episode lossy_env example_world (example_episode ''Three'' ''/Users/me/three.mp3''))
     = VerificationFailed
   \<and> \<not> returned (fst (copy_episode lossy_env example_world
                        (example_episode ''Three'' ''/Users/me/three.mp3'')))
   \<and> \<not> path_exists
         (disk (snd (copy_episode lossy_env example_world
                       (example_episode ''Three'' ''/Users/me/three.mp3''))))
         (destination_of (example_episode ''Three'' ''/Users/me/three.mp3''))"
proof -
  let ?e = "example_episode ''Three'' ''/Users/me/three.mp3''"
  let ?tmp = "[''tmp'', ''tmpfile.mp3'']"
  let ?fs3 = "AList.update ?tmp (File []) example_disk"
  let ?fs4 = "AList.update ?tmp (File ''2x third'') ?fs3"
  let ?fs5 = "AList.delete ?tmp ?fs4"
  have h1: "is_connected example_world" by code_simp
  have h2: "mkdir lossy_env (disk example_world) (device_path @ [''Podcasts'']) = Some example_disk"
    by code_simp
  have h3: "which_ffmpeg lossy_env" by code_simp
  have h4: "\<not> exists_nonempty example_disk (destination_of ?e)" by code_simp
  have h5: "path_exists example_disk (Path (file_path ?e))" by code_simp
  have h6: "(if path_exists example_disk (destination_of ?e)
             then unlink lossy_env example_disk (destination_of ?e)
             else Some example_disk) = Some example_disk" by code_simp
  have h7: "named_temporary_file lossy_env example_disk (suffix (destination_of ?e))
              = Some (?tmp, ?fs3)" by code_simp
  have h8: "run_ffmpeg lossy_env ?fs3 (Path (file_path ?e)) ?tmp = (Some 0, ?fs4)" by code_simp
  have h9: "shutil_move lossy_env ?fs4 ?tmp (destination_of ?e) = (True, ?fs5)" by code_simp
  have h10: "\<not> exists_nonempty ?fs5 (destination_of ?e)" by code_simp
  have p: "\<not> path_exists ?fs5 (destination_of ?e)" by code_simp
  from verification_failure [of example_world lossy_env example_disk ?e example_disk ?tmp
      ?fs3 ?fs4 ?fs5] h1 h2 h3 h4 h5 h6 h7 h8 h9 h10
  have "fst (copy_episode lossy_env example_world ?e) = VerificationFailed
        \<and> \<not> returned (fst (copy_episode lossy_env example_world ?e))
        \<and> disk (snd (copy_episode lossy_env example_world ?e)) = ?fs5"
    by blast
  with p show ?thesis by (simp add: returned_def)
qed


section \<open>Properties of the batch\<close>




lemma copy_selected_count:
  "fst (copy_selected env w es) = length (filter returned (fst (snd (copy_selected env w es))))"
proof (induction es arbitrary: w)
  case Nil
  show ?case by simp
next
  case (Cons x xs)
  obtain r v where c: "copy_episode env w x = (r, v)" by (cases "copy_episode env w x")
  obtain m rs v' where s: "copy_selected env v xs = (m, rs, v')"
    by (cases "copy_selected env v xs") auto
  from Cons.IH [of v] s have "m = length (filter returned rs)" by simp
  with c s show ?case by simp
qed





section \<open>Properties of pruning\<close>

























section \<open>Properties of the device scan\<close>

lemma scan_loop_acc: "scan_loop fs evs acc = acc @ scan_loop fs evs []"
proof (induction evs arbitrary: acc)
  case Nil
  show ?case by simp
next
  case (Cons ev evs)
  show ?case
  proof (cases ev)
    case ReadError
    then show ?thesis by simp
  next
    case (Yield p)
    show ?thesis
      using Cons.IH [of "acc @ [device_file_of p]"] Cons.IH [of "[device_file_of p]"]
        Cons.IH [of acc]
      by (simp add: Yield device_file_of_def)
  qed
qed

lemma scan_loop_Yield:
  "scan_loop fs (Yield p # evs) [] =
     (if audio_file fs p then [device_file_of p] else []) @ scan_loop fs evs []"
  using scan_loop_acc [of fs evs "[device_file_of p]"]
  by (simp add: audio_file_def device_file_of_def)

lemma scan_loop_yields:
  "scan_loop fs (map Yield ps @ evs) []
     = map device_file_of (filter (audio_file fs) ps) @ scan_loop fs evs []"
proof (induction ps)
  case Nil
  show ?case by simp
next
  case (Cons p ps)
  have "scan_loop fs (map Yield (p # ps) @ evs) [] = scan_loop fs (Yield p # (map Yield ps @ evs)) []"
    by simp
  also have "\<dots> = (if audio_file fs p then [device_file_of p] else [])
                    @ scan_loop fs (map Yield ps @ evs) []"
    by (rule scan_loop_Yield)
  finally show ?case using Cons.IH by simp
qed

lemma glob_all_iff:
  "p \<in> set (glob_all fs root) \<longleftrightarrow> is_below root p \<and> path_exists fs p"
proof
  assume "p \<in> set (glob_all fs root)"
  then show "is_below root p \<and> path_exists fs p" by (auto simp: glob_all_def)
next
  assume a: "is_below root p \<and> path_exists fs p"
  then have "p \<noteq> []" by (auto simp: is_below_def)
  with a have "map_of fs p \<noteq> None"
    by (auto simp: path_exists_def stat_def split: if_splits)
  then obtain n where "(p, n) \<in> set fs" by (auto dest: map_of_SomeD)
  with a show "p \<in> set (glob_all fs root)" by (force simp: glob_all_def)
qed

lemma get_device_files_eq:
  assumes "is_connected w"
  shows "get_device_files env w =
     map device_file_of (filter (audio_file (disk w))
       (case glob_fault env of None \<Rightarrow> glob_all (disk w) device_path
        | Some k \<Rightarrow> take k (glob_all (disk w) device_path)))"
proof (cases "glob_fault env")
  case None
  with assms scan_loop_yields [of "disk w" "glob_all (disk w) device_path" "[]"]
  show ?thesis by (simp add: get_device_files_def glob_events_def)
next
  case (Some k)
  with assms scan_loop_yields [of "disk w" "take k (glob_all (disk w) device_path)" "[ReadError]"]
  show ?thesis by (simp add: get_device_files_def glob_events_def)
qed

text \<open>
  C8, as stated, fails for an extension in upper case: the scan compares the lower-cased
  suffix with the recognized set, so \<open>d.MP3\<close> is returned although \<open>.MP3\<close> is not
  in the set.
\<close>

theorem get_device_files_upper_case_counterexample:
  "DeviceFile ''Podcasts/d.MP3'' ''/Volumes/XTRAINERZ/Podcasts/d.MP3''
     \<in> set (get_device_files example_env five_world)
   \<and> suffix [''Volumes'', ''XTRAINERZ'', ''Podcasts'', ''d.MP3''] = ''.MP3''
   \<and> ''.MP3'' \<notin> set audio_extensions"
  by code_simp

text \<open>
  C8, amended. For a mounted device, a scan whose walk does not fail returns exactly the
  regular files below the root, at any depth, whose own name does not begin with a dot and
  whose suffix, lower-cased, is in the recognized set, each with its path relative to the
  root as name and its absolute path. A walk that fails after \<open>k\<close> entries returns what
  was gathered from these \<open>k\<close> entries, which is an initial part of the full result.
\<close>

theorem get_device_files_contract:
  assumes "is_connected w"
  shows "(glob_fault env = None
           \<longrightarrow> set (get_device_files env w)
               = {DeviceFile (str_rel (drop (length device_path) p)) (str_abs p) | p.
                    is_below device_path p \<and> is_file (disk w) p
                    \<and> \<not> startswith (path_name p) ''.''
                    \<and> lower (suffix p) \<in> set audio_extensions})
         \<and> (\<forall>k. glob_fault env = Some k
               \<longrightarrow> get_device_files env w
                   = scan_loop (disk w) (map Yield (take k (glob_all (disk w) device_path))) [])
         \<and> (\<exists>rest. get_device_files (env\<lparr>glob_fault := None\<rparr>) w
                      = get_device_files env w @ rest)"
proof (intro conjI impI allI)
  assume n: "glob_fault env = None"
  have "set (get_device_files env w)
          = device_file_of ` {p \<in> set (glob_all (disk w) device_path). audio_file (disk w) p}"
    using get_device_files_eq [OF assms, of env] n by simp
  also have "\<dots> = device_file_of ` {p. is_below device_path p \<and> audio_file (disk w) p}"
    by (auto simp: glob_all_iff audio_file_def is_file_def path_exists_def
             split: option.splits)
  finally show "set (get_device_files env w)
               = {DeviceFile (str_rel (drop (length device_path) p)) (str_abs p) | p.
                    is_below device_path p \<and> is_file (disk w) p
                    \<and> \<not> startswith (path_name p) ''.''
                    \<and> lower (suffix p) \<in> set audio_extensions}"
    by (auto simp: audio_file_def device_file_of_def)
next
  fix k assume k: "glob_fault env = Some k"
  have "get_device_files env w
          = map device_file_of (filter (audio_file (disk w))
              (take k (glob_all (disk w) device_path)))"
    using get_device_files_eq [OF assms, of env] k by simp
  also have "\<dots> = scan_loop (disk w) (map Yield (take k (glob_all (disk w) device_path))) []"
    using scan_loop_yields [of "disk w" "take k (glob_all (disk w) device_path)" "[]"] by simp
  finally show "get_device_files env w
      = scan_loop (disk w) (map Yield (take k (glob_all (disk w) device_path))) []" .
next
  let ?all = "glob_all (disk w) device_path"
  have full: "get_device_files (env\<lparr>glob_fault := None\<rparr>) w
                = map device_file_of (filter (audio_file (disk w)) ?all)"
    using get_device_files_eq [OF assms, of "env\<lparr>glob_fault := None\<rparr>"] by simp
  show "\<exists>rest. get_device_files (env\<lparr>glob_fault := None\<rparr>) w = get_device_files env w @ rest"
  proof (cases "glob_fault env")
    case None
    then have "get_device_files env w = map device_file_of (filter (audio_file (disk w)) ?all)"
      using get_device_files_eq [OF assms, of env] by simp
    with full show ?thesis by simp
  next
    case (Some k)
    then have part: "get_device_files env w
        = map device_file_of (filter (audio_file (disk w)) (take k ?all))"
      using get_device_files_eq [OF assms, of env] by simp
    have "?all = take k ?all @ drop k ?all" by simp
    then have "filter (audio_file (disk w)) ?all
        = filter (audio_file (disk w)) (take k ?all) @ filter (audio_file (disk w)) (drop k ?all)"
      by (metis filter_append)
    with full part show ?thesis by simp
  qed
qed

theorem get_device_files_contract_witness:
  "DeviceFile ''Podcasts/c.m4a'' ''/Volumes/XTRAINERZ/Podcasts/c.m4a''
     \<in> set (get_device_files example_env five_world)
   \<and> get_device_files (example_env\<lparr>glob_fault := Some 2\<rparr>) five_world
       = [DeviceFile ''a.mp3'' ''/Volumes/XTRAINERZ/a.mp3'',
          DeviceFile ''b.mp3'' ''/Volumes/XTRAINERZ/b.mp3'']"
proof -
  let ?p = "[''Volumes'', ''XTRAINERZ'', ''Podcasts'', ''c.m4a'']"
  have h: "is_connected five_world" by code_simp
  have n: "glob_fault example_env = None" by code_simp
  have k: "glob_fault (example_env\<lparr>glob_fault := Some 2\<rparr>) = Some 2" by simp
  have p: "is_below device_path ?p \<and> is_file (disk five_world) ?p
           \<and> \<not> startswith (path_name ?p) ''.'' \<and> lower (suffix ?p) \<in> set audio_extensions"
    by code_simp
  have d: "DeviceFile ''Podcasts/c.m4a'' ''/Volumes/XTRAINERZ/Podcasts/c.m4a''
             = DeviceFile (str_rel (drop (length device_path) ?p)) (str_abs ?p)"
    by code_simp
  have s: "scan_loop (disk five_world)
             (map Yield (take 2 (glob_all (disk five_world) device_path))) []
           = [DeviceFile ''a.mp3'' ''/Volumes/XTRAINERZ/a.mp3'',
              DeviceFile ''b.mp3'' ''/Volumes/XTRAINERZ/b.mp3'']"
    by code_simp
  from get_device_files_contract [OF h, of example_env] n p d
  have 1: "DeviceFile ''Podcasts/c.m4a'' ''/Volumes/XTRAINERZ/Podcasts/c.m4a''
             \<in> set (get_device_files example_env five_world)"
    by blast
  from get_device_files_contract [OF h, of "example_env\<lparr>glob_fault := Some 2\<rparr>"] k s
  have 2: "get_device_files (example_env\<lparr>glob_fault := Some 2\<rparr>) five_world
       = [DeviceFile ''a.mp3'' ''/Volumes/XTRAINERZ/a.mp3'',
          DeviceFile ''b.mp3'' ''/Volumes/XTRAINERZ/b.mp3'']"
    by metis
  from 1 2 show ?thesis by simp
qed


section \<open>Properties of the library reader\<close>

lemma collect_episodes_eq:
  "collect_episodes env fs rows acc
     = map_option ((@) acc) (those (map (episode_of_row env) (filter (on_disk env fs) rows)))"
proof (induction rows arbitrary: acc)
  case Nil
  show ?case by simp
next
  case (Cons row rows)
  let ?rest = "those (map (episode_of_row env) (filter (on_disk env fs) rows))"
  show ?case
  proof (cases "on_disk env fs row")
    case False
    then have "collect_episodes env fs (row # rows) acc = collect_episodes env fs rows acc"
      by (auto simp: on_disk_def split: option.splits)
    with False Cons.IH [of acc] show ?thesis by simp
  next
    case True
    then obtain fp where fp: "local_path env row = Some fp" and ex: "path_exists fs (Path fp)"
      by (auto simp: on_disk_def split: option.splits)
    show ?thesis
    proof (cases "to_date_added env (download_date row)")
      case None
      with fp have "episode_of_row env row = None" by (simp add: episode_of_row_def)
      moreover from None fp ex have "collect_episodes env fs (row # rows) acc = None" by simp
      ultimately show ?thesis using True by simp
    next
      case (Some d)
      let ?e = "PodcastEpisode (or_default (episode_title row) ''Unknown Episode'')
                  (or_default (podcast_title row) ''Unknown Podcast'') fp d"
      from Some fp have e: "episode_of_row env row = Some ?e" by (simp add: episode_of_row_def)
      from Some fp ex
      have "collect_episodes env fs (row # rows) acc = collect_episodes env fs rows (acc @ [?e])"
        by simp
      also have "\<dots> = map_option ((@) (acc @ [?e])) ?rest" by (rule Cons.IH)
      also have "\<dots> = map_option ((@) acc) (map_option ((#) ?e) ?rest)"
        by (cases ?rest) simp_all
      finally show ?thesis using True e by simp
    qed
  qed
qed

lemma those_SomeD:
  "those xs = Some ys \<Longrightarrow> xs = map Some ys"
proof (induction xs arbitrary: ys)
  case Nil
  then show ?case by simp
next
  case (Cons x xs)
  then show ?case by (cases x; cases "those xs") auto
qed

lemma those_None_iff: "those xs = None \<longleftrightarrow> None \<in> set xs"
proof (induction xs)
  case Nil
  show ?case by simp
next
  case (Cons x xs)
  then show ?case by (cases x; cases "those xs") auto
qed

lemma episode_of_row_None_iff:
  assumes "on_disk env fs r"
  shows "episode_of_row env r = None \<longleftrightarrow> to_date_added env (download_date r) = None"
  using assms by (auto simp: on_disk_def episode_of_row_def split: option.splits)

lemma those_episodes_None_iff:
  "those (map (episode_of_row env) (filter (on_disk env fs) rows)) = None
     \<longleftrightarrow> (\<exists>r\<in>set rows. on_disk env fs r \<and> to_date_added env (download_date r) = None)"
proof -
  have "those (map (episode_of_row env) (filter (on_disk env fs) rows)) = None
          \<longleftrightarrow> (\<exists>r\<in>set rows. on_disk env fs r \<and> episode_of_row env r = None)"
    unfolding those_None_iff by (auto simp: image_iff)
  also have "\<dots> \<longleftrightarrow> (\<exists>r\<in>set rows. on_disk env fs r \<and> to_date_added env (download_date r) = None)"
    using episode_of_row_None_iff by blast
  finally show ?thesis .
qed

lemma fetchall_sorted:
  "sorted_wrt (\<lambda>a b. date_key b \<le> date_key a) (fetchall db limit)"
proof -
  let ?rows = "order_by_date_desc (filter where_clause (joined_rows db))"
  have "sorted (map (\<lambda>r. - date_key r) ?rows)"
    unfolding order_by_date_desc_def by (rule sorted_sort_key)
  then have s: "sorted_wrt (\<lambda>a b. date_key b \<le> date_key a) ?rows"
    by (simp add: sorted_map)
  show ?thesis
  proof (cases "limit < 0")
    case True
    with s show ?thesis by (simp add: fetchall_def sql_limit_def)
  next
    case False
    with s show ?thesis by (simp add: fetchall_def sql_limit_def sorted_wrt_take)
  qed
qed

lemma fetchall_length: "0 \<le> limit \<Longrightarrow> length (fetchall db limit) \<le> nat limit"
  by (simp add: fetchall_def sql_limit_def)

lemma fetchall_where: "r \<in> set (fetchall db limit) \<Longrightarrow> where_clause r"
  by (auto simp: fetchall_def sql_limit_def order_by_date_desc_def dest: in_set_takeD
           split: if_splits)

lemma fetchall_newest:
  assumes "0 \<le> limit"
    and "r \<in> set (fetchall db limit)"
    and "r' \<in> set (drop (nat limit) (order_by_date_desc (filter where_clause (joined_rows db))))"
  shows "date_key r' \<le> date_key r"
proof -
  let ?rows = "order_by_date_desc (filter where_clause (joined_rows db))"
  have "sorted (map (\<lambda>r. - date_key r) ?rows)"
    unfolding order_by_date_desc_def by (rule sorted_sort_key)
  then have "sorted_wrt (\<lambda>a b. date_key b \<le> date_key a) ?rows"
    by (simp add: sorted_map)
  then have "sorted_wrt (\<lambda>a b. date_key b \<le> date_key a)
               (take (nat limit) ?rows @ drop (nat limit) ?rows)"
    by simp
  then have "\<forall>x\<in>set (take (nat limit) ?rows). \<forall>y\<in>set (drop (nat limit) ?rows).
               date_key y \<le> date_key x"
    unfolding sorted_wrt_append by blast
  moreover from assms(1,2) have "r \<in> set (take (nat limit) ?rows)"
    by (simp add: fetchall_def sql_limit_def)
  ultimately show ?thesis using assms(3) by blast
qed

lemma episode_of_row_file_path:
  "episode_of_row env row = Some e \<Longrightarrow> local_path env row = Some (file_path e)"
  by (auto simp: episode_of_row_def PodcastEpisode_def split: option.splits)

lemma get_recent_podcasts_eq:
  assumes "library env = Some db" and "\<not> sqlite_fails env"
    and "- 9223372036854775808 \<le> limit" and "limit \<le> 9223372036854775807"
  shows "get_recent_podcasts env w limit
           = (case those (map (episode_of_row env)
                           (filter (on_disk env (disk w)) (fetchall db limit))) of
                None \<Rightarrow> [] | Some episodes \<Rightarrow> episodes)"
  using assms
  by (simp add: get_recent_podcasts_def collect_episodes_eq split: option.splits)

lemma get_recent_podcasts_failed:
  assumes "library env = None \<or> sqlite_fails env
           \<or> limit < - 9223372036854775808 \<or> 9223372036854775807 < limit"
  shows "get_recent_podcasts env w limit = []"
  using assms by (auto simp: get_recent_podcasts_def split: option.splits)

lemma get_recent_podcasts_nonempty:
  assumes "get_recent_podcasts env w limit \<noteq> []"
  shows "\<exists>db. library env = Some db
           \<and> those (map (episode_of_row env)
                     (filter (on_disk env (disk w)) (fetchall db limit)))
               = Some (get_recent_podcasts env w limit)"
proof -
  from assms get_recent_podcasts_failed [of env limit w]
  have nf: "\<not> (library env = None \<or> sqlite_fails env
           \<or> limit < - 9223372036854775808 \<or> 9223372036854775807 < limit)"
    by blast
  then obtain db where db: "library env = Some db" by (cases "library env") auto
  from nf have f: "\<not> sqlite_fails env"
    and r: "- 9223372036854775808 \<le> limit" "limit \<le> 9223372036854775807"
    by auto
  from get_recent_podcasts_eq [OF db f r] assms db show ?thesis
    by (auto split: option.splits)
qed

lemma episodes_paths:
  assumes "those (map (episode_of_row env) kept) = Some eps"
  shows "map (\<lambda>e. Some (file_path e)) eps = map (local_path env) kept"
proof -
  from those_SomeD [OF assms] have m: "map (episode_of_row env) kept = map Some eps" .
  then have len: "length kept = length eps" by (metis length_map)
  show ?thesis
  proof (rule nth_equalityI)
    show "length (map (\<lambda>e. Some (file_path e)) eps) = length (map (local_path env) kept)"
      using len by simp
  next
    fix i assume "i < length (map (\<lambda>e. Some (file_path e)) eps)"
    then have i: "i < length eps" by simp
    with m len have "episode_of_row env (kept ! i) = Some (eps ! i)"
      by (metis nth_map)
    then have "local_path env (kept ! i) = Some (file_path (eps ! i))"
      by (rule episode_of_row_file_path)
    with i len
    show "map (\<lambda>e. Some (file_path e)) eps ! i = map (local_path env) kept ! i"
      by simp
  qed
qed

lemma get_recent_podcasts_length:
  "length (get_recent_podcasts env w limit)
     \<le> (if limit < 0 then length (get_recent_podcasts env w limit) else nat limit)"
proof (cases "get_recent_podcasts env w limit = []")
  case True
  then show ?thesis by simp
next
  case False
  from get_recent_podcasts_nonempty [OF False] obtain db
    where s: "those (map (episode_of_row env)
                      (filter (on_disk env (disk w)) (fetchall db limit)))
                = Some (get_recent_podcasts env w limit)" by blast
  from those_SomeD [OF s]
  have "length (filter (on_disk env (disk w)) (fetchall db limit))
          = length (get_recent_podcasts env w limit)" by (metis length_map)
  moreover have "length (filter (on_disk env (disk w)) (fetchall db limit))
          \<le> length (fetchall db limit)" by simp
  ultimately have "length (get_recent_podcasts env w limit) \<le> length (fetchall db limit)"
    by simp
  then show ?thesis using fetchall_length [of limit db] by auto
qed

lemma get_recent_podcasts_exist:
  assumes "e \<in> set (get_recent_podcasts env w limit)"
  shows "path_exists (disk w) (Path (file_path e))"
proof -
  from assms have "get_recent_podcasts env w limit \<noteq> []" by auto
  from get_recent_podcasts_nonempty [OF this] obtain db
    where s: "those (map (episode_of_row env)
                      (filter (on_disk env (disk w)) (fetchall db limit)))
                = Some (get_recent_podcasts env w limit)" by blast
  from assms
  have "Some (file_path e)
          \<in> set (map (\<lambda>e. Some (file_path e)) (get_recent_podcasts env w limit))" by auto
  with episodes_paths [OF s]
  have "Some (file_path e)
          \<in> local_path env ` set (filter (on_disk env (disk w)) (fetchall db limit))"
    by simp
  then obtain r where "on_disk env (disk w) r" "local_path env r = Some (file_path e)"
    by auto
  then show ?thesis by (simp add: on_disk_def)
qed

text \<open>
  C3, as stated, fails: the limit is applied by the query, before the files are checked.
  With the limit 1, when the newest episode has lost its file, nothing is returned,
  although the store holds a downloaded episode whose file exists.
\<close>

theorem get_recent_podcasts_limit_counterexample:
  "get_recent_podcasts library_env example_world 1 = []
   \<and> map episode_title (claimed_recent_rows library_env example_db (disk example_world) 1)
       = [Some ''Day'']"
  by code_simp

text \<open>
  C3, amended. When the library is found and read, and the limit fits a signed 64-bit
  integer, the query takes the (at most) \<open>limit\<close> most recently downloaded rows (rows
  with an asset URL and a download date; no row left out is newer than a row taken; every
  row when the limit is negative), newest first. When no exception is raised while the
  rows are read, that is, no date of a row whose file exists is beyond what
  \<^verbatim>\<open>datetime\<close> holds (and every look-up of a file returns), the reader returns the
  episodes of those rows whose URL names a local file that exists, in the same order: a
  row whose file is missing is skipped, and the rows after it are still read. So at most
  \<open>limit\<close> episodes are returned, possibly fewer even when the store holds more whose
  file exists, and the file of every returned episode exists. In every other case the
  reader returns the empty list: when no library is found, when reading it fails, when
  the limit does not fit 64 bits, and when the date of a row whose file exists overflows.
  Download dates are whole seconds.
\<close>

theorem get_recent_podcasts_contract:
  "(library env = None \<or> sqlite_fails env
      \<or> limit < - 9223372036854775808 \<or> 9223372036854775807 < limit
      \<longrightarrow> get_recent_podcasts env w limit = [])
   \<and> (library env = Some db \<and> \<not> sqlite_fails env
        \<and> - 9223372036854775808 \<le> limit \<and> limit \<le> 9223372036854775807
      \<longrightarrow> get_recent_podcasts env w limit
            = (case those (map (episode_of_row env)
                            (filter (on_disk env (disk w)) (fetchall db limit))) of
                 None \<Rightarrow> [] | Some episodes \<Rightarrow> episodes)
          \<and> ((\<exists>r\<in>set (fetchall db limit).
                 on_disk env (disk w) r \<and> to_date_added env (download_date r) = None)
               \<longrightarrow> get_recent_podcasts env w limit = [])
          \<and> ((\<forall>r\<in>set (fetchall db limit).
                 on_disk env (disk w) r \<longrightarrow> to_date_added env (download_date r) \<noteq> None)
               \<longrightarrow> map Some (get_recent_podcasts env w limit)
                     = map (episode_of_row env)
                         (filter (on_disk env (disk w)) (fetchall db limit))
                   \<and> map (\<lambda>e. Some (file_path e)) (get_recent_podcasts env w limit)
                     = map (local_path env)
                         (filter (on_disk env (disk w)) (fetchall db limit))))
   \<and> fetchall db limit
       = sql_limit limit (order_by_date_desc (filter where_clause (joined_rows db)))
   \<and> (\<forall>r\<in>set (fetchall db limit). where_clause r)
   \<and> sorted_wrt (\<lambda>a b. date_key b \<le> date_key a) (fetchall db limit)
   \<and> (0 \<le> limit
        \<longrightarrow> (\<forall>r\<in>set (fetchall db limit).
              \<forall>r'\<in>set (drop (nat limit)
                         (order_by_date_desc (filter where_clause (joined_rows db)))).
                date_key r' \<le> date_key r))
   \<and> (0 \<le> limit \<longrightarrow> length (get_recent_podcasts env w limit) \<le> nat limit)
   \<and> (\<forall>e\<in>set (get_recent_podcasts env w limit). path_exists (disk w) (Path (file_path e)))"
proof -
  let ?kept = "filter (on_disk env (disk w)) (fetchall db limit)"
  let ?those = "those (map (episode_of_row env) ?kept)"
  let ?ok = "library env = Some db \<and> \<not> sqlite_fails env
        \<and> - 9223372036854775808 \<le> limit \<and> limit \<le> 9223372036854775807"
  have eq: "get_recent_podcasts env w limit
           = (case ?those of None \<Rightarrow> [] | Some episodes \<Rightarrow> episodes)" if "?ok"
    using that by (intro get_recent_podcasts_eq) auto
  have none_iff: "?those = None
      \<longleftrightarrow> (\<exists>r\<in>set (fetchall db limit).
             on_disk env (disk w) r \<and> to_date_added env (download_date r) = None)"
    by (rule those_episodes_None_iff)
  show ?thesis
  proof (intro conjI impI)
    assume "library env = None \<or> sqlite_fails env
      \<or> limit < - 9223372036854775808 \<or> 9223372036854775807 < limit"
    then show "get_recent_podcasts env w limit = []" by (rule get_recent_podcasts_failed)
  next
    assume "?ok"
    then show "get_recent_podcasts env w limit
           = (case ?those of None \<Rightarrow> [] | Some episodes \<Rightarrow> episodes)"
      by (rule eq)
  next
    assume r: "?ok"
      and "\<exists>r\<in>set (fetchall db limit).
             on_disk env (disk w) r \<and> to_date_added env (download_date r) = None"
    then have "?those = None" using none_iff by blast
    with eq [OF r] show "get_recent_podcasts env w limit = []" by simp
  next
    assume r: "?ok"
      and a: "\<forall>r\<in>set (fetchall db limit).
             on_disk env (disk w) r \<longrightarrow> to_date_added env (download_date r) \<noteq> None"
    then have "?those \<noteq> None" using none_iff by blast
    then obtain eps where s: "?those = Some eps" by auto
    with eq [OF r] have g: "get_recent_podcasts env w limit = eps" by simp
    from those_SomeD [OF s] g
    show "map Some (get_recent_podcasts env w limit) = map (episode_of_row env) ?kept" by simp
    from episodes_paths [OF s] g
    show "map (\<lambda>e. Some (file_path e)) (get_recent_podcasts env w limit)
            = map (local_path env) ?kept" by simp
  next
    show "fetchall db limit
             = sql_limit limit (order_by_date_desc (filter where_clause (joined_rows db)))"
      by (simp add: fetchall_def)
    show "sorted_wrt (\<lambda>a b. date_key b \<le> date_key a) (fetchall db limit)"
      by (rule fetchall_sorted)
    show "\<forall>r\<in>set (fetchall db limit). where_clause r"
      by (auto dest: fetchall_where)
    show "\<forall>e\<in>set (get_recent_podcasts env w limit). path_exists (disk w) (Path (file_path e))"
      by (auto dest: get_recent_podcasts_exist)
  next
    assume l: "0 \<le> limit"
    with get_recent_podcasts_length [of env w limit]
    show "length (get_recent_podcasts env w limit) \<le> nat limit" by simp
    from l show "\<forall>r\<in>set (fetchall db limit).
        \<forall>r'\<in>set (drop (nat limit)
                   (order_by_date_desc (filter where_clause (joined_rows db)))).
          date_key r' \<le> date_key r"
      using fetchall_newest [OF l] by blast
  qed
qed

theorem get_recent_podcasts_contract_witness:
  "map title (get_recent_podcasts library_env example_world 3) = [''Day'', ''Zero'']
   \<and> map file_path (get_recent_podcasts library_env example_world 3)
       = [''/Users/me/three.mp3'', ''/Users/me/one.mp3'']
   \<and> get_recent_podcasts library_env example_world 1 = []
   \<and> get_recent_podcasts library_env example_world 9223372036854775808 = []
   \<and> get_recent_podcasts overflow_env example_world 3 = []
   \<and> on_disk overflow_env (disk example_world) (fetchall overflow_db 3 ! 1)
   \<and> get_recent_podcasts example_env example_world 3 = []"
proof -
  have l: "library library_env = Some example_db \<and> \<not> sqlite_fails library_env
        \<and> - 9223372036854775808 \<le> (3::int) \<and> (3::int) \<le> 9223372036854775807"
    by code_simp
  have l1: "library library_env = Some example_db \<and> \<not> sqlite_fails library_env
        \<and> - 9223372036854775808 \<le> (1::int) \<and> (1::int) \<le> 9223372036854775807"
    by code_simp
  have lo: "library overflow_env = Some overflow_db \<and> \<not> sqlite_fails overflow_env
        \<and> - 9223372036854775808 \<le> (3::int) \<and> (3::int) \<le> 9223372036854775807"
    by code_simp
  have n: "library example_env = None" by code_simp
  have 3: "(case those (map (episode_of_row library_env)
              (filter (on_disk library_env (disk example_world)) (fetchall example_db 3))) of
             None \<Rightarrow> [] | Some episodes \<Rightarrow> episodes)
           = [PodcastEpisode ''Day'' ''Show'' ''/Users/me/three.mp3''
                \<lparr>year = 2001, month = 1, day = 2, hour = 0, minute = 0, second = 0,
                 microsecond = 0\<rparr>,
              PodcastEpisode ''Zero'' ''Show'' ''/Users/me/one.mp3'' (now library_env)]"
    by code_simp
  have 1: "(case those (map (episode_of_row library_env)
              (filter (on_disk library_env (disk example_world)) (fetchall example_db 1))) of
             None \<Rightarrow> [] | Some episodes \<Rightarrow> episodes) = []"
    by code_simp
  have o: "\<exists>r\<in>set (fetchall overflow_db 3).
             on_disk overflow_env (disk example_world) r
             \<and> to_date_added overflow_env (download_date r) = None"
    by code_simp
  have o1: "on_disk overflow_env (disk example_world) (fetchall overflow_db 3 ! 1)"
    by code_simp
  from get_recent_podcasts_contract [where env = library_env and db = example_db
         and w = example_world and limit = 3, THEN conjunct2, THEN conjunct1, THEN mp, OF l,
         THEN conjunct1] 3
  have a: "get_recent_podcasts library_env example_world 3
         = [PodcastEpisode ''Day'' ''Show'' ''/Users/me/three.mp3''
                \<lparr>year = 2001, month = 1, day = 2, hour = 0, minute = 0, second = 0,
                 microsecond = 0\<rparr>,
              PodcastEpisode ''Zero'' ''Show'' ''/Users/me/one.mp3'' (now library_env)]"
    by simp
  from get_recent_podcasts_contract [where env = library_env and db = example_db
         and w = example_world and limit = 1, THEN conjunct2, THEN conjunct1, THEN mp, OF l1,
         THEN conjunct1] 1
  have b: "get_recent_podcasts library_env example_world 1 = []" by simp
  from get_recent_podcasts_contract [where env = library_env and w = example_world
         and limit = 9223372036854775808, THEN conjunct1]
  have c: "get_recent_podcasts library_env example_world 9223372036854775808 = []" by simp
  from get_recent_podcasts_contract [where env = overflow_env and db = overflow_db
         and w = example_world and limit = 3, THEN conjunct2, THEN conjunct1, THEN mp, OF lo,
         THEN conjunct2, THEN conjunct1, THEN mp, OF o]
  have d: "get_recent_podcasts overflow_env example_world 3 = []" .
  from get_recent_podcasts_contract [where env = example_env and w = example_world
         and limit = 3, THEN conjunct1] n
  have e: "get_recent_podcasts example_env example_world 3 = []" by simp
  from a b c d e o1 show ?thesis by (simp add: PodcastEpisode_def)
qed

lemma to_date_added_zero: "to_date_added env (Some 0) = Some (now env)"
  by (simp add: to_date_added_def)

text \<open>
  C4. The download date 86400 converts to 2001-01-02T00:00:00. The date 0 does not convert
  to 2001-01-01T00:00:00: the test \<^verbatim>\<open>if download_date:\<close> is false for 0, and the
  episode gets the time of the clock instead.
\<close>

theorem epoch_conversion_of_zero:
  "to_date_added library_env (Some 0) = Some (now library_env)
   \<and> now library_env \<noteq> core_data_epoch
   \<and> to_date_added library_env (Some 86400)
       = Some \<lparr>year = 2001, month = 1, day = 2, hour = 0, minute = 0, second = 0,
               microsecond = 0\<rparr>
   \<and> map (\<lambda>e. (title e, date_added e)) (get_recent_podcasts library_env example_world 3)
       = [(''Day'', \<lparr>year = 2001, month = 1, day = 2, hour = 0, minute = 0, second = 0,
                     microsecond = 0\<rparr>),
          (''Zero'', \<lparr>year = 2026, month = 11, day = 4, hour = 12, minute = 0, second = 0,
                      microsecond = 0\<rparr>)]"
  by code_simp

end
